theory Spec2Isabelle
  imports Main "HOL-Library.Word" "HOL-Library.Sublist"
begin

section \<open>Python values used by \<^verbatim>\<open>backend/main.py\<close>\<close>

text \<open>
  A Python \<^verbatim>\<open>str\<close> is a sequence of code points, a \<^verbatim>\<open>bytes\<close> object a sequence of
  octets. String literals of the source are written \<open>lit ''...''\<close>.
\<close>

type_synonym pystr = "nat list"
type_synonym byte = "8 word"

definition lit :: "string \<Rightarrow> pystr" where
  "lit s = map of_char s"

text \<open>
  The exceptions that can leave a handler. \<open>HTTPException\<close> carries the status code
  and the detail text given at the \<^verbatim>\<open>raise\<close>; the others are Python's built-in
  exceptions. \<open>is_ValueError\<close> tells which of them an \<^verbatim>\<open>except ValueError\<close> clause
  catches: \<^verbatim>\<open>ValueError\<close> and its subclasses.
\<close>

datatype error =
    HTTPException int pystr
  | KeyError
  | TypeError
  | ValueError
  | UnicodeEncodeError
  | UnicodeDecodeError
  | RecursionError
  | OSError

fun is_ValueError :: "error \<Rightarrow> bool" where
  "is_ValueError ValueError = True"
| "is_ValueError UnicodeEncodeError = True"
| "is_ValueError UnicodeDecodeError = True"
| "is_ValueError e = False"

subsection \<open>\<^verbatim>\<open>str.encode("utf-8")\<close> and \<^verbatim>\<open>bytes.decode("utf-8")\<close>\<close>

text \<open>
  The strict UTF-8 codec: surrogate code points (D800..DFFF) cannot be encoded;
  decoding rejects stray continuation bytes, truncated sequences, overlong forms,
  encoded surrogates and values above 10FFFF. A number from 110000 on is not a
  character of a Python string; \<open>enc_char\<close> refuses it like a surrogate.
\<close>

definition enc_char :: "nat \<Rightarrow> nat list option" where
  "enc_char c =
     (if c < 0x80 then Some [c]
      else if c < 0x800 then Some [0xC0 + c div 64, 0x80 + c mod 64]
      else if c < 0x10000 then
        (if 0xD800 \<le> c \<and> c \<le> 0xDFFF then None
         else Some [0xE0 + c div 4096, 0x80 + (c div 64) mod 64, 0x80 + c mod 64])
      else if c < 0x110000 then
        Some [0xF0 + c div 262144, 0x80 + (c div 4096) mod 64,
              0x80 + (c div 64) mod 64, 0x80 + c mod 64]
      else None)"

fun enc :: "pystr \<Rightarrow> nat list option" where
  "enc [] = Some []"
| "enc (c # cs) =
     (case enc_char c of
        None \<Rightarrow> None
      | Some bs \<Rightarrow> (case enc cs of None \<Rightarrow> None | Some rest \<Rightarrow> Some (bs @ rest)))"

definition encode_utf8 :: "pystr \<Rightarrow> error + byte list" where
  "encode_utf8 s =
     (case enc s of None \<Rightarrow> Inl UnicodeEncodeError | Some bs \<Rightarrow> Inr (map of_nat bs))"

definition cont :: "nat \<Rightarrow> bool" where
  "cont b \<longleftrightarrow> 0x80 \<le> b \<and> b \<le> 0xBF"

definition push :: "nat \<Rightarrow> pystr option \<Rightarrow> pystr option" where
  "push c r = (case r of None \<Rightarrow> None | Some cs \<Rightarrow> Some (c # cs))"

fun dec :: "nat list \<Rightarrow> pystr option" where
  "dec [] = Some []"
| "dec (b0 # bs) =
     (if b0 < 0x80 then push b0 (dec bs)
      else if 0xC2 \<le> b0 \<and> b0 \<le> 0xDF then
        (case bs of
           b1 # r \<Rightarrow>
             if cont b1 then push ((b0 - 0xC0) * 64 + (b1 - 0x80)) (dec r) else None
         | _ \<Rightarrow> None)
      else if 0xE0 \<le> b0 \<and> b0 \<le> 0xEF then
        (case bs of
           b1 # b2 # r \<Rightarrow>
             if (if b0 = 0xE0 then 0xA0 else 0x80) \<le> b1
                \<and> b1 \<le> (if b0 = 0xED then 0x9F else 0xBF) \<and> cont b2
             then push ((b0 - 0xE0) * 4096 + (b1 - 0x80) * 64 + (b2 - 0x80)) (dec r)
             else None
         | _ \<Rightarrow> None)
      else if 0xF0 \<le> b0 \<and> b0 \<le> 0xF4 then
        (case bs of
           b1 # b2 # b3 # r \<Rightarrow>
             if (if b0 = 0xF0 then 0x90 else 0x80) \<le> b1
                \<and> b1 \<le> (if b0 = 0xF4 then 0x8F else 0xBF) \<and> cont b2 \<and> cont b3
             then push ((b0 - 0xF0) * 262144 + (b1 - 0x80) * 4096
                        + (b2 - 0x80) * 64 + (b3 - 0x80)) (dec r)
             else None
         | _ \<Rightarrow> None)
      else None)"

definition decode_utf8 :: "byte list \<Rightarrow> error + pystr" where
  "decode_utf8 bs =
     (case dec (map unat bs) of None \<Rightarrow> Inl UnicodeDecodeError | Some s \<Rightarrow> Inr s)"

subsection \<open>JSON documents and Python dictionaries\<close>

text \<open>
  The value of \<^verbatim>\<open>resp.json()\<close>, and every \<^verbatim>\<open>dict\<close> the handlers build: a dictionary is
  the list of its items, looked up by key. \<open>JFloat\<close> holds a mantissa and an
  exponent; no handler inspects a number.
\<close>

datatype jvalue =
    JNull
  | JBool bool
  | JInt int
  | JFloat int int
  | JStr pystr
  | JArr "jvalue list"
  | JObj "(pystr \<times> jvalue) list"

text \<open>
  \<^verbatim>\<open>k in j\<close> for a string \<open>k\<close>: a key of a dictionary, an element of a list, a
  substring of a string; on a number, a boolean or \<^verbatim>\<open>None\<close> Python raises
  \<^verbatim>\<open>TypeError\<close>.
\<close>

fun py_in :: "pystr \<Rightarrow> jvalue \<Rightarrow> error + bool" where
  "py_in k (JObj kvs) = Inr (k \<in> set (map fst kvs))"
| "py_in k (JArr xs) = Inr (JStr k \<in> set xs)"
| "py_in k (JStr s) = Inr (sublist k s)"
| "py_in k j = Inl TypeError"

text \<open>
  \<^verbatim>\<open>j[k]\<close> for a string \<open>k\<close>: the value of the key in a dictionary, \<^verbatim>\<open>KeyError\<close>
  when the key is absent, \<^verbatim>\<open>TypeError\<close> on every other value (lists and strings
  take integer indices only).
\<close>

fun getitem :: "jvalue \<Rightarrow> pystr \<Rightarrow> error + jvalue" where
  "getitem (JObj kvs) k = (case map_of kvs k of None \<Rightarrow> Inl KeyError | Some v \<Rightarrow> Inr v)"
| "getitem j k = Inl TypeError"

section \<open>The remote store as seen through \<^verbatim>\<open>requests\<close>\<close>

text \<open>
  A call of \<^verbatim>\<open>requests.put\<close> or \<^verbatim>\<open>requests.get\<close> either raises
  \<^verbatim>\<open>requests.RequestException\<close> (connection failure, timeout) or returns a response.
  Of a response the source reads \<^verbatim>\<open>status_code\<close>, \<^verbatim>\<open>content\<close>, \<^verbatim>\<open>text\<close> and \<^verbatim>\<open>json()\<close>. The
  field \<open>text\<close> is the body as the library decodes it for display, and the field
  \<open>json\<close> is the outcome of the library's parser on the body: the parsed document, or
  the exception the call raises (\<^verbatim>\<open>ValueError\<close> on a body that is not JSON,
  \<^verbatim>\<open>RecursionError\<close> on one nested too deeply).
\<close>

record response =
  status_code :: int
  content :: "byte list"
  "text" :: pystr
  json :: "error + jvalue"

datatype http_result = RequestException | Response response

text \<open>
  \<open>PUT url data\<close> is \<^verbatim>\<open>requests.put(url, data=data, timeout=30)\<close>. \<open>GET base v\<close> is
  \<^verbatim>\<open>requests.get(url, timeout=30)\<close> for the URL \<^verbatim>\<open>f"{base}{v}"\<close>: the interpolated
  value is kept beside the text before it instead of being formatted into it.
\<close>

datatype request = PUT pystr "byte list" | GET pystr jvalue

text \<open>
  The network answers a request given the requests sent before it. Nothing is assumed
  about the answers.
\<close>

type_synonym network = "request list \<Rightarrow> request \<Rightarrow> http_result"

subsection \<open>Standard output\<close>

text \<open>
  A \<^verbatim>\<open>print\<close> call writes its arguments to standard output and returns, or raises: a
  text that the encoding of standard output cannot represent gives
  \<^verbatim>\<open>UnicodeEncodeError\<close>, a closed stream \<^verbatim>\<open>OSError\<close>. The console decides the outcome of
  each call from its arguments and from the requests sent so far (every \<^verbatim>\<open>print\<close> of the
  source follows a request of the same call). \<open>PExc\<close> is the caught
  \<^verbatim>\<open>RequestException\<close>.
\<close>

datatype pyobj = PStr pystr | PInt int | PJson jvalue | PExc

type_synonym printer = "pyobj list \<Rightarrow> error option"

type_synonym console = "request list \<Rightarrow> printer"

text \<open>\<^verbatim>\<open>print(*args)\<close> followed by \<^verbatim>\<open>raise e\<close>: the exception that leaves.\<close>

definition print_raise :: "printer \<Rightarrow> pyobj list \<Rightarrow> error \<Rightarrow> error" where
  "print_raise p args e = (case p args of None \<Rightarrow> e | Some failure \<Rightarrow> failure)"

definition PUBLISHER_BASE :: pystr where
  "PUBLISHER_BASE = lit ''https://publisher.walrus-testnet.walrus.space''"

definition AGGREGATOR_BASE :: pystr where
  "AGGREGATOR_BASE = lit ''https://aggregator.walrus-testnet.walrus.space''"

text \<open>
  The \<^verbatim>\<open>url\<close> of \<^verbatim>\<open>walrus_upload\<close>, and the part of the \<^verbatim>\<open>url\<close> of \<^verbatim>\<open>walrus_fetch\<close> before
  the blob identifier.
\<close>

definition upload_url :: pystr where
  "upload_url = PUBLISHER_BASE @ lit ''/v1/blobs?epochs=1&permanent=true''"

definition fetch_url :: pystr where
  "fetch_url = AGGREGATOR_BASE @ lit ''/v1/blobs/''"

section \<open>Process state\<close>

text \<open>
  The two module-level dictionaries \<^verbatim>\<open>forms\<close> and \<^verbatim>\<open>submissions\<close>, and the requests
  the process has sent so far (\<open>sent\<close>), which makes "no call to the remote store"
  a statement about the state.
\<close>

record world =
  forms :: "pystr \<rightharpoonup> jvalue"
  submissions :: "pystr \<rightharpoonup> jvalue list"
  sent :: "request list"

definition start :: world where
  "start = \<lparr>forms = Map.empty, submissions = Map.empty, sent = []\<rparr>"

definition send :: "network \<Rightarrow> world \<Rightarrow> request \<Rightarrow> http_result \<times> world" where
  "send net w r = (net (sent w) r, w\<lparr>sent := sent w @ [r]\<rparr>)"

record CreateFormRequest =
  publicKey :: pystr
  schema :: jvalue

record CreateFormResponse =
  formId :: pystr
  adminLink :: pystr
  submitLink :: pystr

record SubmitRequest =
  encrypted :: pystr

section \<open>Walrus upload and fetch\<close>

text \<open>
  Every \<^verbatim>\<open>raise\<close> is a result \<open>Inl\<close>, and a \<^verbatim>\<open>print\<close> before it can raise in its place. A
  function that sends a request returns the state with the request recorded.
\<close>

text \<open>
  Lines 65 to 72 of \<^verbatim>\<open>walrus_upload\<close>: the two shapes of a parsed body. \<open>p\<close> is the
  console at that moment.
\<close>

definition blob_id_of :: "printer \<Rightarrow> jvalue \<Rightarrow> error + jvalue" where
  "blob_id_of p j =
     (case py_in (lit ''newlyCreated'') j of
        Inl e \<Rightarrow> Inl e
      | Inr True \<Rightarrow>
          (case getitem j (lit ''newlyCreated'') of
             Inl e \<Rightarrow> Inl e
           | Inr a \<Rightarrow>
               (case getitem a (lit ''blobObject'') of
                  Inl e \<Rightarrow> Inl e
                | Inr b \<Rightarrow> getitem b (lit ''blobId'')))
      | Inr False \<Rightarrow>
          (case py_in (lit ''alreadyCertified'') j of
             Inl e \<Rightarrow> Inl e
           | Inr True \<Rightarrow>
               (case getitem j (lit ''alreadyCertified'') of
                  Inl e \<Rightarrow> Inl e
                | Inr a \<Rightarrow> getitem a (lit ''blobId''))
           | Inr False \<Rightarrow>
               Inl (print_raise p [PStr (lit ''Walrus upload missing blobId:''), PJson j]
                      (HTTPException 500 (lit ''walrus upload missing blobId'')))))"

definition walrus_upload ::
  "network \<Rightarrow> console \<Rightarrow> world \<Rightarrow> pystr \<Rightarrow> (error + jvalue) \<times> world" where
  "walrus_upload net out w encrypted_str =
     (case encode_utf8 encrypted_str of
        Inl e \<Rightarrow> (Inl e, w)
      | Inr blob_bytes \<Rightarrow>
          (case send net w (PUT upload_url blob_bytes) of
             (RequestException, w') \<Rightarrow>
               (Inl (print_raise (out (sent w'))
                       [PStr (lit ''Walrus upload network error:''), PExc]
                       (HTTPException 500 (lit ''walrus upload network error''))), w')
           | (Response resp, w') \<Rightarrow>
               if status_code resp \<noteq> 200
               then (Inl (print_raise (out (sent w'))
                            [PStr (lit ''Walrus upload error:''), PInt (status_code resp),
                             PStr (text resp)]
                            (HTTPException 500 (lit ''walrus upload failed''))), w')
               else (case json resp of
                       Inl e \<Rightarrow>
                         (if is_ValueError e
                          then Inl (print_raise (out (sent w'))
                                      [PStr (lit ''Walrus upload non-JSON response:''),
                                       PStr (take 200 (text resp))]
                                      (HTTPException 500 (lit ''walrus upload bad response'')))
                          else Inl e, w')
                     | Inr j \<Rightarrow> (blob_id_of (out (sent w')) j, w'))))"

definition walrus_fetch ::
  "network \<Rightarrow> console \<Rightarrow> world \<Rightarrow> jvalue \<Rightarrow> (error + pystr) \<times> world" where
  "walrus_fetch net out w blob_id =
     (case send net w (GET fetch_url blob_id) of
        (RequestException, w') \<Rightarrow>
          (Inl (print_raise (out (sent w'))
                  [PStr (lit ''Walrus fetch network error:''), PExc]
                  (HTTPException 500 (lit ''walrus fetch network error''))), w')
      | (Response resp, w') \<Rightarrow>
          if status_code resp \<noteq> 200
          then (Inl (print_raise (out (sent w'))
                       [PStr (lit ''Walrus fetch error:''), PInt (status_code resp),
                        PStr (take 200 (text resp))]
                       (HTTPException 500 (lit ''walrus fetch failed''))), w')
          else (decode_utf8 (content resp), w'))"

section \<open>Routes\<close>

text \<open>
  \<open>create_form\<close> takes the value of \<^verbatim>\<open>secrets.token_hex(16)\<close> as its first argument.
  The path parameter \<^verbatim>\<open>formId\<close> of the other routes is written \<open>fid\<close>. The dictionaries
  the routes store and return are \<open>JObj\<close> values with the keys of the source.
\<close>

definition create_form ::
  "pystr \<Rightarrow> world \<Rightarrow> CreateFormRequest \<Rightarrow> CreateFormResponse \<times> world" where
  "create_form form_id w data =
     (\<lparr>formId = form_id,
       adminLink = lit ''/admin/'' @ form_id,
       submitLink = lit ''/f/'' @ form_id\<rparr>,
      w\<lparr>forms := (forms w)(form_id \<mapsto>
             JObj [(lit ''publicKey'', JStr (publicKey data)), (lit ''schema'', schema data)]),
        submissions := (submissions w)(form_id \<mapsto> [])\<rparr>)"

definition submit ::
  "network \<Rightarrow> console \<Rightarrow> world \<Rightarrow> pystr \<Rightarrow> SubmitRequest \<Rightarrow> (error + jvalue) \<times> world" where
  "submit net out w fid data =
     (if fid \<notin> dom (forms w) then (Inl (HTTPException 404 (lit ''form not found'')), w)
      else (case walrus_upload net out w (encrypted data) of
              (Inl e, w') \<Rightarrow> (Inl e, w')
            | (Inr blob_id, w') \<Rightarrow>
                (case submissions w' fid of
                   None \<Rightarrow> (Inl KeyError, w')
                 | Some items \<Rightarrow>
                     (Inr (JObj [(lit ''status'', JStr (lit ''stored'')),
                                 (lit ''blobId'', blob_id)]),
                      w'\<lparr>submissions := (submissions w')(fid \<mapsto>
                            items @ [JObj [(lit ''blobId'', blob_id)]])\<rparr>))))"

text \<open>The loop of \<^verbatim>\<open>list_submissions\<close>, with \<open>result\<close> as its accumulator.\<close>

fun fetch_items ::
  "network \<Rightarrow> console \<Rightarrow> world \<Rightarrow> jvalue list \<Rightarrow> jvalue list
    \<Rightarrow> (error + jvalue list) \<times> world" where
  "fetch_items net out w [] result = (Inr result, w)"
| "fetch_items net out w (item # items) result =
     (case getitem item (lit ''blobId'') of
        Inl e \<Rightarrow> (Inl e, w)
      | Inr blob_id \<Rightarrow>
          (case walrus_fetch net out w blob_id of
             (Inl e, w') \<Rightarrow> (Inl e, w')
           | (Inr encrypted_str, w') \<Rightarrow>
               fetch_items net out w' items
                 (result @ [JObj [(lit ''blobId'', blob_id),
                                  (lit ''encrypted'', JStr encrypted_str)]])))"

definition list_submissions ::
  "network \<Rightarrow> console \<Rightarrow> world \<Rightarrow> pystr \<Rightarrow> (error + jvalue list) \<times> world" where
  "list_submissions net out w fid =
     (case submissions w fid of
        None \<Rightarrow> (Inl (HTTPException 404 (lit ''form not found'')), w)
      | Some items \<Rightarrow> fetch_items net out w items [])"

definition get_form :: "world \<Rightarrow> pystr \<Rightarrow> error + jvalue" where
  "get_form w fid =
     (case forms w fid of
        None \<Rightarrow> Inl (HTTPException 404 (lit ''form not found''))
      | Some form \<Rightarrow> Inr form)"

section \<open>Notions of the specification\<close>

text \<open>
  The error taxonomy of the specification, read off the \<^verbatim>\<open>raise\<close> statements of the
  source: each kind is an \<open>HTTPException\<close> with a fixed status and detail. Every
  other exception has no kind.
\<close>

datatype kind = NotFound | StoreUnavailable | StoreRejected | StoreProtocolError

fun kind_of :: "error \<Rightarrow> kind option" where
  "kind_of (HTTPException code detail) =
     (if code = 404 \<and> detail = lit ''form not found'' then Some NotFound
      else if code = 500 \<and> (detail = lit ''walrus upload network error''
                             \<or> detail = lit ''walrus fetch network error'')
        then Some StoreUnavailable
      else if code = 500 \<and> (detail = lit ''walrus upload failed''
                             \<or> detail = lit ''walrus fetch failed'')
        then Some StoreRejected
      else if code = 500 \<and> (detail = lit ''walrus upload bad response''
                             \<or> detail = lit ''walrus upload missing blobId'')
        then Some StoreProtocolError
      else None)"
| "kind_of e = None"

definition store_related :: "error \<Rightarrow> bool" where
  "store_related e \<longleftrightarrow>
     kind_of e = Some StoreUnavailable \<or> kind_of e = Some StoreRejected
     \<or> kind_of e = Some StoreProtocolError"

text \<open>
  The value at a path of keys in a JSON document, and whether a document is an object
  with a given key.
\<close>

fun value_at :: "jvalue \<Rightarrow> pystr list \<Rightarrow> jvalue option" where
  "value_at j [] = Some j"
| "value_at (JObj kvs) (k # ks) =
     (case map_of kvs k of None \<Rightarrow> None | Some v \<Rightarrow> value_at v ks)"
| "value_at j (k # ks) = None"

fun has_key :: "jvalue \<Rightarrow> pystr \<Rightarrow> bool" where
  "has_key (JObj kvs) k = (map_of kvs k \<noteq> None)"
| "has_key j k = False"

text \<open>The two success bodies of the store for a blob identifier.\<close>

definition created :: "jvalue \<Rightarrow> jvalue" where
  "created b = JObj [(lit ''newlyCreated'', JObj [(lit ''blobObject'', JObj [(lit ''blobId'', b)])])]"

definition certified :: "jvalue \<Rightarrow> jvalue" where
  "certified b = JObj [(lit ''alreadyCertified'', JObj [(lit ''blobId'', b)])]"

text \<open>The registry and the ledger have the same keys.\<close>

definition keys_agree :: "world \<Rightarrow> bool" where
  "keys_agree w \<longleftrightarrow> dom (forms w) = dom (submissions w)"

text \<open>
  One request to the service, and the state it leaves. \<open>CreateForm\<close> carries the
  token drawn for the new form.
\<close>

datatype call =
    CreateForm pystr CreateFormRequest
  | Submit pystr SubmitRequest
  | ListSubmissions pystr
  | GetForm pystr

fun exec :: "network \<Rightarrow> console \<Rightarrow> world \<Rightarrow> call \<Rightarrow> world" where
  "exec net out w (CreateForm token data) = snd (create_form token w data)"
| "exec net out w (Submit fid data) = snd (submit net out w fid data)"
| "exec net out w (ListSubmissions fid) = snd (list_submissions net out w fid)"
| "exec net out w (GetForm fid) = w"

text \<open>Whether a request draws the given token again, replacing the form under it.\<close>

fun recreates :: "pystr \<Rightarrow> call \<Rightarrow> bool" where
  "recreates token (CreateForm t data) = (t = token)"
| "recreates token c = False"

subsection \<open>Networks\<close>

text \<open>
  A network that gives the same answer to every request, a console on which every
  \<^verbatim>\<open>print\<close> succeeds, and one on which every \<^verbatim>\<open>print\<close> raises \<^verbatim>\<open>UnicodeEncodeError\<close>.
\<close>

definition reply :: "http_result \<Rightarrow> network" where
  "reply r h q = r"

definition quiet :: console where
  "quiet h args = None"

definition refusing :: console where
  "refusing h args = Some UnicodeEncodeError"

text \<open>
  A content-addressed store that returns on fetch the bytes stored at upload:
  \<open>ident\<close> names a blob by its content, an upload answers \<open>created\<close> the first time
  and \<open>certified\<close> afterwards, a fetch answers 200 with the stored bytes and 404 for an
  identifier it never gave out.
\<close>

fun stored :: "request list \<Rightarrow> byte list list" where
  "stored [] = []"
| "stored (PUT url bs # h) = bs # stored h"
| "stored (GET url v # h) = stored h"

fun blob_store :: "(byte list \<Rightarrow> pystr) \<Rightarrow> network" where
  "blob_store ident h (PUT url bs) =
     Response \<lparr>status_code = 200, content = [], text = [],
       json = Inr (if bs \<in> set (stored h) then certified (JStr (ident bs))
                   else created (JStr (ident bs)))\<rparr>"
| "blob_store ident h (GET url v) =
     (case find (\<lambda>bs. JStr (ident bs) = v) (stored h) of
        Some bs \<Rightarrow>
          Response \<lparr>status_code = 200, content = bs, text = [], json = Inl ValueError\<rparr>
      | None \<Rightarrow>
          Response \<lparr>status_code = 404, content = [], text = [], json = Inl ValueError\<rparr>)"

subsection \<open>Example data\<close>

text \<open>
  The creation request of the specification's scenario, the state with that one form,
  networks with a fixed answer (\<open>empty_variant\<close> answers with the body
  \<^verbatim>\<open>{"newlyCreated": {}}\<close>, \<open>empty_object\<close> with \<^verbatim>\<open>{}\<close>), a naming of blobs by their content, and the states after
  submitting \<^verbatim>\<open>x\<close> and then the euro sign against \<open>blob_store content_name\<close>.
\<close>

definition pk1_request :: CreateFormRequest where
  "pk1_request =
     \<lparr>publicKey = lit ''pk1'', schema = JObj [(lit ''fields'', JArr [JStr (lit ''name'')])]\<rparr>"

definition one_form :: world where
  "one_form = snd (create_form (lit ''00ff'') start pk1_request)"

definition created_b1 :: network where
  "created_b1 = reply (Response \<lparr>status_code = 200, content = [], text = [],
     json = Inr (created (JStr (lit ''b1'')))\<rparr>)"

definition rejected_500 :: network where
  "rejected_500 = reply (Response \<lparr>status_code = 500, content = [],
     text = lit ''Internal Server Error'', json = Inl ValueError\<rparr>)"

definition null_body :: network where
  "null_body = reply (Response \<lparr>status_code = 200, content = [], text = lit ''null'',
     json = Inr JNull\<rparr>)"

definition empty_variant :: network where
  "empty_variant = reply (Response \<lparr>status_code = 200, content = [], text = [],
     json = Inr (JObj [(lit ''newlyCreated'', JObj [])])\<rparr>)"

definition empty_object :: network where
  "empty_object = reply (Response \<lparr>status_code = 200, content = [], text = lit ''{}'',
     json = Inr (JObj [])\<rparr>)"

definition certified_b1 :: network where
  "certified_b1 = reply (Response \<lparr>status_code = 200, content = [], text = [],
     json = Inr (certified (JStr (lit ''b1'')))\<rparr>)"

definition invalid_utf8 :: network where
  "invalid_utf8 = reply (Response \<lparr>status_code = 200, content = [0xFF], text = [0xFFFD],
     json = Inl ValueError\<rparr>)"

definition content_name :: "byte list \<Rightarrow> pystr" where
  "content_name bs = map unat bs"

definition after_x :: world where
  "after_x = one_form\<lparr>sent := [PUT upload_url [0x78]],
     submissions := (submissions one_form)(lit ''00ff'' \<mapsto> [JObj [(lit ''blobId'', JStr [0x78])]])\<rparr>"

definition after_euro :: world where
  "after_euro = after_x\<lparr>sent := [PUT upload_url [0x78], PUT upload_url [0xE2, 0x82, 0xAC]],
     submissions := (submissions after_x)(lit ''00ff'' \<mapsto>
       [JObj [(lit ''blobId'', JStr [0x78])], JObj [(lit ''blobId'', JStr [0xE2, 0x82, 0xAC])]])\<rparr>"

section \<open>The UTF-8 codec: decoding inverts encoding\<close>

lemma split64:
  fixes d :: nat
  obtains q r where "d = q * 64 + r" "r < 64" "d div 64 = q" "d mod 64 = r"
  by (metis div_mult_mod_eq mod_less_divisor zero_less_numeral)

lemma dec1: "c < 0x80 \<Longrightarrow> dec (c # rest) = push c (dec rest)"
  by simp

lemma dec2_gen:
  "2 \<le> h \<Longrightarrow> h < 32 \<Longrightarrow> l < 64 \<Longrightarrow>
   dec ((0xC0 + h) # (0x80 + l) # rest) = push (h * 64 + l) (dec rest)"
  by (simp add: cont_def)

lemma dec3_gen:
  "h < 16 \<Longrightarrow> m < 64 \<Longrightarrow> l < 64 \<Longrightarrow> (h = 0 \<longrightarrow> 32 \<le> m) \<Longrightarrow> (h = 13 \<longrightarrow> m < 32) \<Longrightarrow>
   dec ((0xE0 + h) # (0x80 + m) # (0x80 + l) # rest) = push (h * 4096 + m * 64 + l) (dec rest)"
  by (auto simp: cont_def)

lemma dec4_gen:
  "h < 5 \<Longrightarrow> m < 64 \<Longrightarrow> k < 64 \<Longrightarrow> l < 64 \<Longrightarrow> (h = 0 \<longrightarrow> 16 \<le> m) \<Longrightarrow> (h = 4 \<longrightarrow> m < 16) \<Longrightarrow>
   dec ((0xF0 + h) # (0x80 + m) # (0x80 + k) # (0x80 + l) # rest)
     = push (h * 262144 + m * 4096 + k * 64 + l) (dec rest)"
  by (auto simp: cont_def)

lemma dec2:
  assumes "0x80 \<le> c" "c < 0x800"
  shows "dec ((0xC0 + c div 64) # (0x80 + c mod 64) # rest) = push c (dec rest)"
proof -
  obtain h l where c: "c = h * 64 + l" "l < 64" "c div 64 = h" "c mod 64 = l"
    by (rule split64)
  have a: "2 \<le> h" "h < 32" using assms c(1,2) by auto
  show ?thesis using dec2_gen [OF a c(2), of rest] c(1) unfolding c(3,4) by simp
qed

lemma dec3:
  assumes "0x800 \<le> c" "c < 0x10000" "\<not> (0xD800 \<le> c \<and> c \<le> 0xDFFF)"
  shows "dec ((0xE0 + c div 4096) # (0x80 + (c div 64) mod 64) # (0x80 + c mod 64) # rest)
           = push c (dec rest)"
proof -
  obtain d l where c: "c = d * 64 + l" "l < 64" "c div 64 = d" "c mod 64 = l"
    by (rule split64)
  obtain h m where d: "d = h * 64 + m" "m < 64" "d div 64 = h" "d mod 64 = m"
    by (rule split64)
  have e: "c div 4096 = h" using c(3) d(3) by (simp add: div_mult2_eq)
  have a: "h < 16" "h = 0 \<longrightarrow> 32 \<le> m" "h = 13 \<longrightarrow> m < 32"
    using assms c(1,2) d(1,2) by auto
  have b: "h * 4096 + m * 64 + l = c" using c(1) d(1) by simp
  show ?thesis using dec3_gen [OF a(1) d(2) c(2) a(2,3), of rest] b unfolding e c(3,4) d(4) by simp
qed

lemma dec4:
  assumes "0x10000 \<le> c" "c < 0x110000"
  shows "dec ((0xF0 + c div 262144) # (0x80 + (c div 4096) mod 64) # (0x80 + (c div 64) mod 64)
              # (0x80 + c mod 64) # rest) = push c (dec rest)"
proof -
  obtain d l where c: "c = d * 64 + l" "l < 64" "c div 64 = d" "c mod 64 = l"
    by (rule split64)
  obtain e k where d: "d = e * 64 + k" "k < 64" "d div 64 = e" "d mod 64 = k"
    by (rule split64)
  obtain h m where e: "e = h * 64 + m" "m < 64" "e div 64 = h" "e mod 64 = m"
    by (rule split64)
  have e1: "c div 4096 = e" using c(3) d(3) by (simp add: div_mult2_eq)
  have e2: "c div 262144 = h" using e1 e(3) div_mult2_eq [of c 4096 64] by simp
  have a: "h < 5" "h = 0 \<longrightarrow> 16 \<le> m" "h = 4 \<longrightarrow> m < 16"
    using assms c(1,2) d(1,2) e(1,2) by auto
  have b: "h * 262144 + m * 4096 + k * 64 + l = c" using c(1) d(1) e(1) by simp
  show ?thesis using dec4_gen [OF a(1) e(2) d(2) c(2) a(2,3), of rest] b
    unfolding e1 e2 c(3,4) d(4) e(4) by simp
qed

lemma dec_enc_char:
  assumes "enc_char c = Some bs"
  shows "dec (bs @ rest) = push c (dec rest)"
proof -
  consider "c < 0x80" | "0x80 \<le> c" "c < 0x800"
    | "0x800 \<le> c" "c < 0x10000" | "0x10000 \<le> c" "c < 0x110000" | "0x110000 \<le> c"
    by linarith
  then show ?thesis
  proof cases
    case 1
    then have "bs = [c]" using assms by (simp add: enc_char_def)
    then show ?thesis using dec1 [OF 1] by simp
  next
    case 2
    then have "bs = [0xC0 + c div 64, 0x80 + c mod 64]" using assms by (simp add: enc_char_def)
    then show ?thesis using dec2 [OF 2] by simp
  next
    case 3
    then have s: "\<not> (0xD800 \<le> c \<and> c \<le> 0xDFFF)"
      using assms by (auto simp add: enc_char_def)
    have "bs = [0xE0 + c div 4096, 0x80 + (c div 64) mod 64, 0x80 + c mod 64]"
      using assms 3 s by (simp add: enc_char_def)
    then show ?thesis using dec3 [OF 3 s] by simp
  next
    case 4
    then have "bs = [0xF0 + c div 262144, 0x80 + (c div 4096) mod 64,
              0x80 + (c div 64) mod 64, 0x80 + c mod 64]"
      using assms by (simp add: enc_char_def)
    then show ?thesis using dec4 [OF 4] by simp
  next
    case 5
    then show ?thesis using assms by (simp add: enc_char_def)
  qed
qed

lemma dec_enc: "enc s = Some bs \<Longrightarrow> dec bs = Some s"
proof (induction s arbitrary: bs)
  case Nil
  then show ?case by simp
next
  case (Cons c cs)
  from Cons.prems obtain b r where b: "enc_char c = Some b" and r: "enc cs = Some r"
    and bs: "bs = b @ r"
    by (auto split: option.splits)
  show ?case unfolding bs dec_enc_char [OF b] Cons.IH [OF r] by (simp add: push_def)
qed

lemma enc_char_byte: "enc_char c = Some bs \<Longrightarrow> b \<in> set bs \<Longrightarrow> b < 256"
proof -
  assume a: "enc_char c = Some bs" "b \<in> set bs"
  obtain d l where c: "c = d * 64 + l" "l < 64" "c div 64 = d" "c mod 64 = l"
    by (rule split64)
  obtain e k where d: "d = e * 64 + k" "k < 64" "d div 64 = e" "d mod 64 = k"
    by (rule split64)
  obtain h m where e: "e = h * 64 + m" "m < 64" "e div 64 = h" "e mod 64 = m"
    by (rule split64)
  have e1: "c div 4096 = e" using c(3) d(3) by (simp add: div_mult2_eq)
  have e2: "c div 262144 = h" using e1 e(3) div_mult2_eq [of c 4096 64] by simp
  show ?thesis using a unfolding enc_char_def e1 e2 c(3,4) d(4) e(4)
    using c(1,2) d(1,2) e(1,2) by (auto split: if_splits)
qed

lemma enc_byte: "enc s = Some bs \<Longrightarrow> \<forall>b\<in>set bs. b < 256"
  by (induction s arbitrary: bs) (auto split: option.splits dest: enc_char_byte)

lemma unat_of_nat_bytes:
  "\<forall>b\<in>set bs. b < 256 \<Longrightarrow> map unat (map of_nat bs :: byte list) = bs"
  by (induction bs) (auto simp: unat_of_nat)

lemma decode_encode: "encode_utf8 s = Inr bs \<Longrightarrow> decode_utf8 bs = Inr s"
proof -
  assume "encode_utf8 s = Inr bs"
  then obtain ns where ns: "enc s = Some ns" and bs: "bs = map of_nat ns"
    by (auto simp: encode_utf8_def split: option.splits)
  have "map unat bs = ns" unfolding bs using unat_of_nat_bytes [OF enc_byte [OF ns]] .
  then show ?thesis by (simp add: decode_utf8_def dec_enc [OF ns])
qed

text \<open>Conversely, whatever decodes is the encoding of what it decodes to.\<close>

lemma dm64:
  fixes q l :: nat
  shows "l < 64 \<Longrightarrow> (q * 64 + l) div 64 = q \<and> (q * 64 + l) mod 64 = l"
  by simp

lemma enc2_gen:
  assumes "2 \<le> h" "h < 32" "l < 64"
  shows "enc_char (h * 64 + l) = Some [0xC0 + h, 0x80 + l]"
proof -
  have "(h * 64 + l) div 64 = h" "(h * 64 + l) mod 64 = l" using assms by simp_all
  moreover have "\<not> h * 64 + l < 0x80" "h * 64 + l < 0x800" using assms by simp_all
  ultimately show ?thesis by (simp add: enc_char_def)
qed

lemma enc3_gen:
  assumes "h < 16" "m < 64" "l < 64" "h = 0 \<longrightarrow> 32 \<le> m" "h = 13 \<longrightarrow> m < 32"
  shows "enc_char (h * 4096 + m * 64 + l) = Some [0xE0 + h, 0x80 + m, 0x80 + l]"
proof -
  let ?c = "h * 4096 + m * 64 + l"
  have c: "?c = (h * 64 + m) * 64 + l" by simp
  have d: "?c div 64 = h * 64 + m" using dm64 [OF assms(3), of "h * 64 + m"] by (simp add: c)
  have 1: "?c div 4096 = h"
    using assms(2,3) by (intro div_nat_eqI) simp_all
  have 2: "(?c div 64) mod 64 = m"
    unfolding d using dm64 [OF assms(2), of h] by blast
  have 3: "?c mod 64 = l" using dm64 [OF assms(3), of "h * 64 + m"] by (simp add: c)
  have r: "\<not> ?c < 0x80" "\<not> ?c < 0x800" "?c < 0x10000"
    using assms by auto
  consider "h \<le> 12" | "h = 13" "m < 32" | "14 \<le> h" using assms(5) by linarith
  then have s: "\<not> (0xD800 \<le> ?c \<and> ?c \<le> 0xDFFF)"
    using assms(2,3) by cases simp_all
  show ?thesis unfolding enc_char_def 1 2 3 using r s by simp
qed

lemma enc4_gen:
  assumes "h < 5" "m < 64" "k < 64" "l < 64" "h = 0 \<longrightarrow> 16 \<le> m" "h = 4 \<longrightarrow> m < 16"
  shows "enc_char (h * 262144 + m * 4096 + k * 64 + l)
    = Some [0xF0 + h, 0x80 + m, 0x80 + k, 0x80 + l]"
proof -
  let ?c = "h * 262144 + m * 4096 + k * 64 + l"
  have c: "?c = ((h * 64 + m) * 64 + k) * 64 + l" by simp
  have d: "?c div 64 = (h * 64 + m) * 64 + k"
    using dm64 [OF assms(4), of "(h * 64 + m) * 64 + k"] by (simp add: c)
  have 1: "?c div 262144 = h"
    using assms(2,3,4) by (intro div_nat_eqI) simp_all
  have 2: "?c div 4096 = h * 64 + m"
    using assms(3,4) by (intro div_nat_eqI) simp_all
  have 3: "(?c div 64) mod 64 = k"
    unfolding d using dm64 [OF assms(3), of "h * 64 + m"] by blast
  have 4: "?c mod 64 = l"
    using dm64 [OF assms(4), of "(h * 64 + m) * 64 + k"] by (simp add: c)
  have 5: "(h * 64 + m) mod 64 = m" using assms(2) by simp
  have r: "\<not> ?c < 0x80" "\<not> ?c < 0x800" "\<not> ?c < 0x10000" "?c < 0x110000"
    using assms by auto
  show ?thesis unfolding enc_char_def 1 2 3 4 5 using r by simp
qed


lemma push_Some: "push c r = Some s \<longleftrightarrow> (\<exists>t. r = Some t \<and> s = c # t)"
  by (cases r) (auto simp: push_def)

lemma enc_Cons:
  "enc_char c = Some b \<Longrightarrow> enc t = Some r \<Longrightarrow> enc (c # t) = Some (b @ r)"
  by simp

lemma enc_dec: "dec bs = Some s \<Longrightarrow> enc s = Some bs"
proof (induction bs arbitrary: s rule: length_induct)
  case (1 bs)
  note IH = "1.IH" [rule_format]
  show ?case
  proof (cases bs)
    case Nil
    then show ?thesis using "1.prems" by simp
  next
    case (Cons b0 r0)
    consider (one) "b0 < 0x80" | (two) "0xC2 \<le> b0" "b0 \<le> 0xDF"
      | (three) "0xE0 \<le> b0" "b0 \<le> 0xEF" | (four) "0xF0 \<le> b0" "b0 \<le> 0xF4"
      | (bad) "0x80 \<le> b0" "b0 < 0xC2" | (high) "0xF4 < b0"
      by linarith
    then show ?thesis
    proof cases
      case one
      then obtain t where t: "dec r0 = Some t" "s = b0 # t"
        using "1.prems" Cons by (auto simp: push_Some)
      have "enc t = Some r0" using IH [of r0 t] t(1) Cons by simp
      moreover have "enc_char b0 = Some [b0]" using one by (simp add: enc_char_def)
      ultimately show ?thesis using t(2) Cons by simp
    next
      case two
      then obtain b1 r t where r0: "r0 = b1 # r" and b1: "cont b1" and t: "dec r = Some t"
        "s = ((b0 - 0xC0) * 64 + (b1 - 0x80)) # t"
        using "1.prems" Cons by (auto simp: push_Some split: list.splits if_splits)
      have e: "enc t = Some r" using IH [of r t] t(1) Cons r0 by simp
      have "enc_char ((b0 - 0xC0) * 64 + (b1 - 0x80)) = Some [0xC0 + (b0 - 0xC0), 0x80 + (b1 - 0x80)]"
        using two b1 by (intro enc2_gen) (auto simp: cont_def)
      then have "enc_char ((b0 - 0xC0) * 64 + (b1 - 0x80)) = Some [b0, b1]"
        using two b1 by (simp add: cont_def)
      then show ?thesis using enc_Cons [OF _ e] t(2) Cons r0 by simp
    next
      case three
      then obtain b1 b2 r t where r0: "r0 = b1 # b2 # r"
        and b1: "(if b0 = 0xE0 then 0xA0 else 0x80) \<le> b1" "b1 \<le> (if b0 = 0xED then 0x9F else 0xBF)"
        and b2: "cont b2" and t: "dec r = Some t"
        "s = ((b0 - 0xE0) * 4096 + (b1 - 0x80) * 64 + (b2 - 0x80)) # t"
        using "1.prems" Cons by (auto simp: push_Some split: list.splits if_splits)
      have e: "enc t = Some r" using IH [of r t] t(1) Cons r0 by simp
      have b1': "0x80 \<le> b1" "b1 \<le> 0xBF" using b1 by (auto split: if_splits)
      have "enc_char ((b0 - 0xE0) * 4096 + (b1 - 0x80) * 64 + (b2 - 0x80))
          = Some [0xE0 + (b0 - 0xE0), 0x80 + (b1 - 0x80), 0x80 + (b2 - 0x80)]"
        using three b1 b1' b2 by (intro enc3_gen) (auto simp add: cont_def split: if_splits)
      then have "enc_char ((b0 - 0xE0) * 4096 + (b1 - 0x80) * 64 + (b2 - 0x80)) = Some [b0, b1, b2]"
        using three b1' b2 by (simp add: cont_def)
      then show ?thesis using enc_Cons [OF _ e] t(2) Cons r0 by simp
    next
      case four
      then obtain b1 b2 b3 r t where r0: "r0 = b1 # b2 # b3 # r"
        and b1: "(if b0 = 0xF0 then 0x90 else 0x80) \<le> b1" "b1 \<le> (if b0 = 0xF4 then 0x8F else 0xBF)"
        and b2: "cont b2" and b3: "cont b3" and t: "dec r = Some t"
        "s = ((b0 - 0xF0) * 262144 + (b1 - 0x80) * 4096 + (b2 - 0x80) * 64 + (b3 - 0x80)) # t"
        using "1.prems" Cons by (auto simp: push_Some split: list.splits if_splits)
      have e: "enc t = Some r" using IH [of r t] t(1) Cons r0 by simp
      have b1': "0x80 \<le> b1" "b1 \<le> 0xBF" using b1 by (auto split: if_splits)
      have "enc_char ((b0 - 0xF0) * 262144 + (b1 - 0x80) * 4096 + (b2 - 0x80) * 64 + (b3 - 0x80))
          = Some [0xF0 + (b0 - 0xF0), 0x80 + (b1 - 0x80), 0x80 + (b2 - 0x80), 0x80 + (b3 - 0x80)]"
        using four b1 b1' b2 b3 by (intro enc4_gen) (auto simp add: cont_def split: if_splits)
      then have "enc_char ((b0 - 0xF0) * 262144 + (b1 - 0x80) * 4096 + (b2 - 0x80) * 64 + (b3 - 0x80))
          = Some [b0, b1, b2, b3]"
        using four b1' b2 b3 by (simp add: cont_def)
      then show ?thesis using enc_Cons [OF _ e] t(2) Cons r0 by simp
    next
      case bad
      then show ?thesis using "1.prems" Cons by simp
    next
      case high
      then show ?thesis using "1.prems" Cons by simp
    qed
  qed
qed

lemma encode_decode: "decode_utf8 bs = Inr s \<Longrightarrow> encode_utf8 s = Inr bs"
proof -
  assume "decode_utf8 bs = Inr s"
  then have "dec (map unat bs) = Some s"
    by (simp add: decode_utf8_def split: option.splits)
  then have "enc s = Some (map unat bs)" by (rule enc_dec)
  then show ?thesis by (simp add: encode_utf8_def comp_def)
qed

lemma decode_utf8_iff: "decode_utf8 bs = Inr s \<longleftrightarrow> encode_utf8 s = Inr bs"
  using encode_decode decode_encode by blast

section \<open>What the store client and the routes leave unchanged\<close>

lemma lit_eq_iff [simp]: "lit a = lit b \<longleftrightarrow> a = b"
  by (simp add: lit_def inj_map_eq_map inj_def)

lemma send_frame [simp]:
  "forms (snd (send net w r)) = forms w"
  "submissions (snd (send net w r)) = submissions w"
  "sent (snd (send net w r)) = sent w @ [r]"
  by (simp_all add: send_def)

lemma walrus_upload_frame:
  "forms (snd (walrus_upload net out w s)) = forms w"
  "submissions (snd (walrus_upload net out w s)) = submissions w"
  by (auto simp: walrus_upload_def send_def split: sum.splits http_result.splits option.splits)

lemma walrus_fetch_frame:
  "forms (snd (walrus_fetch net out w b)) = forms w"
  "submissions (snd (walrus_fetch net out w b)) = submissions w"
  by (auto simp: walrus_fetch_def send_def split: sum.splits http_result.splits option.splits)

lemma fetch_items_frame:
  "forms (snd (fetch_items net out w items acc)) = forms w \<and>
   submissions (snd (fetch_items net out w items acc)) = submissions w"
proof (induction items arbitrary: w acc)
  case Nil
  then show ?case by simp
next
  case (Cons item items)
  show ?case
  proof (cases "getitem item (lit ''blobId'')")
    case (Inl e)
    then show ?thesis by simp
  next
    case (Inr b)
    obtain r w' where f: "walrus_fetch net out w b = (r, w')" by (cases "walrus_fetch net out w b")
    have w': "forms w' = forms w" "submissions w' = submissions w"
      using walrus_fetch_frame [of net out w b] f by simp_all
    show ?thesis using Inr f w' Cons.IH by (cases r) simp_all
  qed
qed

lemma list_submissions_frame:
  "forms (snd (list_submissions net out w fid)) = forms w"
  "submissions (snd (list_submissions net out w fid)) = submissions w"
  by (simp_all add: list_submissions_def fetch_items_frame split: option.splits)

text \<open>The four ways \<open>submit\<close> can end.\<close>

lemma submit_cases:
  obtains
    (unknown) "fid \<notin> dom (forms w)"
      "submit net out w fid data = (Inl (HTTPException 404 (lit ''form not found'')), w)"
  | (failed) e w' where "fid \<in> dom (forms w)" "walrus_upload net out w (encrypted data) = (Inl e, w')"
      "submit net out w fid data = (Inl e, w')"
  | (missing) b w' where "fid \<in> dom (forms w)" "walrus_upload net out w (encrypted data) = (Inr b, w')"
      "submissions w fid = None" "submit net out w fid data = (Inl KeyError, w')"
  | (stored) b w' items where "fid \<in> dom (forms w)"
      "walrus_upload net out w (encrypted data) = (Inr b, w')"
      "submissions w fid = Some items"
      "submit net out w fid data =
         (Inr (JObj [(lit ''status'', JStr (lit ''stored'')), (lit ''blobId'', b)]),
          w'\<lparr>submissions := (submissions w')(fid \<mapsto> items @ [JObj [(lit ''blobId'', b)]])\<rparr>)"
proof (cases "fid \<in> dom (forms w)")
  case False
  then show ?thesis using unknown by (simp add: submit_def)
next
  case True
  obtain u w' where u: "walrus_upload net out w (encrypted data) = (u, w')"
    by (cases "walrus_upload net out w (encrypted data)")
  have s: "submissions w' = submissions w"
    using walrus_upload_frame(2) [of net out w "encrypted data"] u by simp
  show ?thesis
  proof (cases u)
    case (Inl e)
    then show ?thesis using failed [of e w'] True u by (simp add: submit_def)
  next
    case (Inr b)
    show ?thesis
    proof (cases "submissions w fid")
      case None
      then show ?thesis using missing [of b w'] True u Inr s by (simp add: submit_def)
    next
      case (Some items)
      then show ?thesis using stored [of b w' items] True u Inr s by (simp add: submit_def)
    qed
  qed
qed

section \<open>Forms\<close>

text \<open>
  Claim C6. A submit to a form identifier that is absent from the registry fails with
  \<open>HTTPException 404\<close> (the kind \<open>NotFound\<close>), sends no request to the remote store
  and leaves the whole state as it was.
\<close>

theorem submit_unknown_form:
  "fid \<notin> dom (forms w) \<Longrightarrow>
   submit net out w fid data = (Inl (HTTPException 404 (lit ''form not found'')), w)
   \<and> kind_of (HTTPException 404 (lit ''form not found'')) = Some NotFound
   \<and> sent (snd (submit net out w fid data)) = sent w"
  by (simp add: submit_def)

theorem submit_unknown_form_witness:
  "lit ''beef'' \<notin> dom (forms one_form)
   \<and> submit (reply RequestException) quiet one_form (lit ''beef'') \<lparr>encrypted = lit ''x''\<rparr>
       = (Inl (HTTPException 404 (lit ''form not found'')), one_form)
   \<and> sent (snd (submit (reply RequestException) quiet one_form (lit ''beef'') \<lparr>encrypted = lit ''x''\<rparr>))
       = []"
proof -
  have h: "lit ''beef'' \<notin> dom (forms one_form)"
    by (simp add: one_form_def create_form_def start_def)
  have s: "sent one_form = []" by (simp add: one_form_def create_form_def start_def)
  show ?thesis
    using h s submit_unknown_form [OF h, of "reply RequestException" quiet
        "\<lparr>encrypted = lit ''x''\<rparr>"]
    by simp
qed

lemma submit_forms: "forms (snd (submit net out w fid data)) = forms w"
  by (cases rule: submit_cases [of fid w net out data])
    (use walrus_upload_frame(1) [of net out w "encrypted data"] in auto)

lemma exec_keeps_form:
  "\<not> recreates token c \<Longrightarrow> forms (exec net out w c) token = forms w token"
  by (cases c) (simp_all add: create_form_def submit_forms list_submissions_frame)

lemma foldl_exec_keeps_form:
  "\<not> list_ex (recreates token) cs \<Longrightarrow> forms (foldl (exec net out) w cs) token = forms w token"
  by (induction cs arbitrary: w) (simp_all add: exec_keeps_form)

text \<open>
  Claim C7. The response of \<open>create_form\<close> carries the new form identifier, the admin
  link is \<^verbatim>\<open>/admin/\<close> followed by that identifier, the submit link is \<^verbatim>\<open>/f/\<close> followed by
  it, and \<open>get_form\<close> on the identifier returns the public key and the schema given at
  creation: right afterwards, and after any further requests none of which creates a
  form under the same token.
\<close>

theorem create_form_links:
  "formId (fst (create_form token w data)) = token
   \<and> adminLink (fst (create_form token w data))
       = lit ''/admin/'' @ formId (fst (create_form token w data))
   \<and> submitLink (fst (create_form token w data))
       = lit ''/f/'' @ formId (fst (create_form token w data))
   \<and> get_form (snd (create_form token w data)) (formId (fst (create_form token w data)))
       = Inr (JObj [(lit ''publicKey'', JStr (publicKey data)), (lit ''schema'', schema data)])
   \<and> (\<not> list_ex (recreates token) cs \<longrightarrow>
        get_form (foldl (exec net out) (snd (create_form token w data)) cs) token
          = Inr (JObj [(lit ''publicKey'', JStr (publicKey data)), (lit ''schema'', schema data)]))"
  by (simp add: get_form_def foldl_exec_keeps_form) (simp add: create_form_def)

theorem create_form_links_witness:
  "adminLink (fst (create_form (lit ''00ff'') start pk1_request)) = lit ''/admin/00ff''
   \<and> submitLink (fst (create_form (lit ''00ff'') start pk1_request)) = lit ''/f/00ff''
   \<and> get_form one_form (lit ''00ff'')
       = Inr (JObj [(lit ''publicKey'', JStr (lit ''pk1'')),
                    (lit ''schema'', JObj [(lit ''fields'', JArr [JStr (lit ''name'')])])])
   \<and> \<not> list_ex (recreates (lit ''00ff''))
          [Submit (lit ''00ff'') \<lparr>encrypted = lit ''x''\<rparr>, CreateForm (lit ''beef'') pk1_request]
   \<and> get_form (foldl (exec created_b1 quiet) one_form
          [Submit (lit ''00ff'') \<lparr>encrypted = lit ''x''\<rparr>, CreateForm (lit ''beef'') pk1_request])
        (lit ''00ff'')
       = Inr (JObj [(lit ''publicKey'', JStr (lit ''pk1'')),
                    (lit ''schema'', JObj [(lit ''fields'', JArr [JStr (lit ''name'')])])])"
proof -
  have n: "\<not> list_ex (recreates (lit ''00ff''))
          [Submit (lit ''00ff'') \<lparr>encrypted = lit ''x''\<rparr>, CreateForm (lit ''beef'') pk1_request]"
    by simp
  have l: "lit ''/admin/'' @ lit ''00ff'' = lit ''/admin/00ff''"
    "lit ''/f/'' @ lit ''00ff'' = lit ''/f/00ff''"
    by (simp_all add: lit_def)
  have p: "publicKey pk1_request = lit ''pk1''"
    "schema pk1_request = JObj [(lit ''fields'', JArr [JStr (lit ''name'')])]"
    by (simp_all add: pk1_request_def)
  note t = create_form_links [of "lit ''00ff''" start pk1_request
        "[Submit (lit ''00ff'') \<lparr>encrypted = lit ''x''\<rparr>, CreateForm (lit ''beef'') pk1_request]"
        created_b1, folded one_form_def, unfolded p l]
  have f: "formId (fst (create_form (lit ''00ff'') start pk1_request)) = lit ''00ff''"
    using t by blast
  show ?thesis using t n unfolding f l by blast
qed

text \<open>
  Claim C8. \<open>create_form\<close> gives the new form an empty ledger, so \<open>list_submissions\<close> on
  the form right after its creation returns the empty list (and sends nothing); on an
  identifier that is not a key of the ledger, and so on every identifier that is not a
  key of the registry when the two have the same keys, it fails with
  \<open>HTTPException 404\<close>.
\<close>

theorem fresh_form_lists_empty:
  "submissions (snd (create_form token w data)) token = Some []
   \<and> list_submissions net out (snd (create_form token w data)) token
       = (Inr [], snd (create_form token w data))
   \<and> (fid \<notin> dom (submissions w) \<longrightarrow>
        list_submissions net out w fid = (Inl (HTTPException 404 (lit ''form not found'')), w))
   \<and> (keys_agree w \<and> fid \<notin> dom (forms w) \<longrightarrow>
        list_submissions net out w fid = (Inl (HTTPException 404 (lit ''form not found'')), w))"
  by (auto simp add: create_form_def list_submissions_def keys_agree_def split: option.splits)

theorem fresh_form_lists_empty_witness:
  "list_submissions (reply RequestException) quiet one_form (lit ''00ff'') = (Inr [], one_form)
   \<and> keys_agree one_form \<and> lit ''beef'' \<notin> dom (forms one_form)
   \<and> list_submissions (reply RequestException) quiet one_form (lit ''beef'')
        = (Inl (HTTPException 404 (lit ''form not found'')), one_form)"
proof -
  have h: "keys_agree one_form" "lit ''beef'' \<notin> dom (forms one_form)"
    by (simp_all add: one_form_def create_form_def start_def keys_agree_def)
  show ?thesis
    using h fresh_form_lists_empty [of "lit ''00ff''" start pk1_request "reply RequestException"
        quiet "lit ''beef''"]
      fresh_form_lists_empty [of "lit ''00ff''" one_form pk1_request "reply RequestException"
        quiet "lit ''beef''"]
    by (simp add: one_form_def)
qed

section \<open>The store client\<close>

lemma has_key_py_in: "py_in k (JObj kvs) = Inr (has_key (JObj kvs) k)"
  by (simp add: map_of_eq_None_iff)

lemma walrus_upload_200:
  assumes "encode_utf8 s = Inr bs" "net (sent w) (PUT upload_url bs) = Response resp"
    "status_code resp = 200" "json resp = Inr j"
  shows "walrus_upload net out w s
    = (blob_id_of (out (sent w @ [PUT upload_url bs])) j,
       w\<lparr>sent := sent w @ [PUT upload_url bs]\<rparr>)"
  using assms by (simp add: walrus_upload_def send_def)

lemma walrus_upload_not_200:
  assumes "encode_utf8 s = Inr bs" "net (sent w) (PUT upload_url bs) = Response resp"
    "status_code resp \<noteq> 200"
  shows "walrus_upload net out w s
    = (Inl (print_raise (out (sent w @ [PUT upload_url bs]))
              [PStr (lit ''Walrus upload error:''), PInt (status_code resp), PStr (text resp)]
              (HTTPException 500 (lit ''walrus upload failed''))),
       w\<lparr>sent := sent w @ [PUT upload_url bs]\<rparr>)"
  using assms by (simp add: walrus_upload_def send_def)

lemma blob_id_of_newly:
  assumes "has_key j (lit ''newlyCreated'')"
    "value_at j [lit ''newlyCreated'', lit ''blobObject'', lit ''blobId''] = Some v"
  shows "blob_id_of p j = Inr v"
proof -
  obtain kvs where j: "j = JObj kvs" using assms(1) by (cases j) simp_all
  obtain a where a: "map_of kvs (lit ''newlyCreated'') = Some a"
    using assms(1) j by auto
  have va: "value_at a [lit ''blobObject'', lit ''blobId''] = Some v"
    using assms(2) j a by simp
  then obtain kvs2 where a2: "a = JObj kvs2" by (cases a) simp_all
  obtain b where b: "map_of kvs2 (lit ''blobObject'') = Some b"
    and vb: "value_at b [lit ''blobId''] = Some v"
    using va a2 by (auto split: option.splits)
  obtain kvs3 where b3: "b = JObj kvs3" using vb by (cases b) simp_all
  have v: "map_of kvs3 (lit ''blobId'') = Some v" using vb b3 by (auto split: option.splits)
  have "py_in (lit ''newlyCreated'') j = Inr True"
    using assms(1) j has_key_py_in [of "lit ''newlyCreated''" kvs] by simp
  then show ?thesis unfolding blob_id_of_def using j a a2 b b3 v by simp
qed

lemma blob_id_of_certified:
  assumes "\<not> has_key j (lit ''newlyCreated'')"
    "value_at j [lit ''alreadyCertified'', lit ''blobId''] = Some v"
  shows "blob_id_of p j = Inr v"
proof -
  obtain kvs where j: "j = JObj kvs" using assms(2) by (cases j) simp_all
  obtain a where a: "map_of kvs (lit ''alreadyCertified'') = Some a"
    and va: "value_at a [lit ''blobId''] = Some v"
    using assms(2) j by (auto split: option.splits)
  obtain kvs2 where a2: "a = JObj kvs2" using va by (cases a) simp_all
  have v: "map_of kvs2 (lit ''blobId'') = Some v" using va a2 by (auto split: option.splits)
  have n: "py_in (lit ''newlyCreated'') j = Inr False"
    using assms(1) j has_key_py_in [of "lit ''newlyCreated''" kvs] by simp
  have c: "py_in (lit ''alreadyCertified'') j = Inr True"
    using a j has_key_py_in [of "lit ''alreadyCertified''" kvs] by simp
  show ?thesis unfolding blob_id_of_def using n c j a a2 v by simp
qed

text \<open>
  Where both membership tests are false (an object without the two keys, a list or a
  string without the two names) the fallthrough of the source is reached.
\<close>

lemma blob_id_of_neither:
  assumes "py_in (lit ''newlyCreated'') j = Inr False"
    "py_in (lit ''alreadyCertified'') j = Inr False"
  shows "blob_id_of p j
    = Inl (print_raise p [PStr (lit ''Walrus upload missing blobId:''), PJson j]
             (HTTPException 500 (lit ''walrus upload missing blobId'')))"
  unfolding blob_id_of_def using assms by simp

lemma blob_id_of_created [simp]: "blob_id_of p (created b) = Inr b"
  by (rule blob_id_of_newly) (simp_all add: created_def)

lemma blob_id_of_certified_body [simp]: "blob_id_of p (certified b) = Inr b"
  by (rule blob_id_of_certified) (simp_all add: certified_def)

lemma encode_x [simp]: "encode_utf8 (lit ''x'') = Inr [0x78]"
  by (simp add: encode_utf8_def lit_def enc_char_def)

lemma one_form_facts:
  "lit ''00ff'' \<in> dom (forms one_form)" "keys_agree one_form"
  "submissions one_form (lit ''00ff'') = Some []" "sent one_form = []"
  by (simp_all add: one_form_def create_form_def start_def keys_agree_def)

text \<open>
  Claim C1 says that an upload answered with status 200 and a JSON body returns the
  value at \<^verbatim>\<open>newlyCreated.blobObject.blobId\<close> when the body has the key
  \<^verbatim>\<open>newlyCreated\<close>, and fails with \<open>StoreProtocolError\<close> when it has neither key. The
  code misses its own fallthrough \<^verbatim>\<open>walrus upload missing blobId\<close> on three inputs. The
  body \<^verbatim>\<open>{"newlyCreated": {}}\<close> has the key, but the subscript \<^verbatim>\<open>["blobObject"]\<close> raises
  \<open>KeyError\<close>. The body \<^verbatim>\<open>null\<close> has neither key, but the test \<^verbatim>\<open>"newlyCreated" in j\<close>
  raises \<open>TypeError\<close>. The body \<^verbatim>\<open>{}\<close> has neither key and reaches the fallthrough, but
  when its \<^verbatim>\<open>print\<close> raises, that exception leaves instead. None of the three has a
  kind in the taxonomy of store errors.
\<close>

theorem walrus_upload_unclassified:
  "has_key (JObj [(lit ''newlyCreated'', JObj [])]) (lit ''newlyCreated'')
   \<and> fst (walrus_upload empty_variant quiet start (lit ''x'')) = Inl KeyError
   \<and> kind_of KeyError = None
   \<and> \<not> has_key JNull (lit ''newlyCreated'') \<and> \<not> has_key JNull (lit ''alreadyCertified'')
   \<and> fst (walrus_upload null_body quiet start (lit ''x'')) = Inl TypeError
   \<and> kind_of TypeError = None
   \<and> \<not> has_key (JObj []) (lit ''newlyCreated'') \<and> \<not> has_key (JObj []) (lit ''alreadyCertified'')
   \<and> fst (walrus_upload empty_object refusing start (lit ''x'')) = Inl UnicodeEncodeError
   \<and> kind_of UnicodeEncodeError = None"
  by (simp add: walrus_upload_def send_def reply_def blob_id_of_def empty_variant_def
      null_body_def empty_object_def refusing_def print_raise_def)

text \<open>
  Claim C10. A successful submit on a form leaves the registry unchanged, leaves the
  ledger of every other form unchanged, and makes the form's own ledger its previous
  value followed by the one record of the blob identifier the upload returned.
\<close>

theorem submit_frame:
  "submit net out w fid data = (Inr r, w') \<Longrightarrow>
   forms w' = forms w
   \<and> (\<forall>other. other \<noteq> fid \<longrightarrow> submissions w' other = submissions w other)
   \<and> (\<exists>items b. submissions w fid = Some items
         \<and> submissions w' fid = Some (items @ [JObj [(lit ''blobId'', b)]])
         \<and> fst (walrus_upload net out w (encrypted data)) = Inr b
         \<and> r = JObj [(lit ''status'', JStr (lit ''stored'')), (lit ''blobId'', b)])"
proof (cases rule: submit_cases [of fid w net out data])
  case (stored b u items)
  assume "submit net out w fid data = (Inr r, w')"
  then show ?thesis
    using stored walrus_upload_frame [of net out w "encrypted data"] by auto
qed auto

lemma upload_created_b1:
  "walrus_upload created_b1 out one_form (lit ''x'')
    = (Inr (JStr (lit ''b1'')), one_form\<lparr>sent := [PUT upload_url [0x78]]\<rparr>)"
  using walrus_upload_200 [of "lit ''x''" "[0x78]" created_b1 one_form
      "\<lparr>status_code = 200, content = [], text = [], json = Inr (created (JStr (lit ''b1'')))\<rparr>"
      "created (JStr (lit ''b1''))" out]
  by (simp add: created_b1_def reply_def one_form_facts)

lemma submit_one_form_created:
  "submit created_b1 quiet one_form (lit ''00ff'') \<lparr>encrypted = lit ''x''\<rparr>
   = (Inr (JObj [(lit ''status'', JStr (lit ''stored'')), (lit ''blobId'', JStr (lit ''b1''))]),
      one_form\<lparr>sent := [PUT upload_url [0x78]],
        submissions := (submissions one_form)(lit ''00ff'' \<mapsto>
           [JObj [(lit ''blobId'', JStr (lit ''b1''))]])\<rparr>)"
  using one_form_facts(1,3) by (simp add: submit_def upload_created_b1)

theorem submit_frame_witness:
  "submit created_b1 quiet one_form (lit ''00ff'') \<lparr>encrypted = lit ''x''\<rparr>
   = (Inr (JObj [(lit ''status'', JStr (lit ''stored'')), (lit ''blobId'', JStr (lit ''b1''))]),
      one_form\<lparr>sent := [PUT upload_url [0x78]],
        submissions := (submissions one_form)(lit ''00ff'' \<mapsto>
           [JObj [(lit ''blobId'', JStr (lit ''b1''))]])\<rparr>)
   \<and> forms (one_form\<lparr>sent := [PUT upload_url [0x78]],
        submissions := (submissions one_form)(lit ''00ff'' \<mapsto>
           [JObj [(lit ''blobId'', JStr (lit ''b1''))]])\<rparr>) = forms one_form"
  using submit_frame [OF submit_one_form_created] submit_one_form_created by simp

text \<open>
  For a submit on an existing form, a record is appended to the form's ledger if and
  only if the upload returned a blob identifier; when the upload fails, whatever the
  exception, submit fails with it and the ledger is unchanged.
\<close>

lemma submit_ledger:
  assumes "fid \<in> dom (forms w)" "keys_agree w"
  shows "\<exists>items. submissions w fid = Some items
    \<and> ((\<exists>b. submissions (snd (submit net out w fid data)) fid
               = Some (items @ [JObj [(lit ''blobId'', b)]]))
         \<longleftrightarrow> (\<exists>b. fst (walrus_upload net out w (encrypted data)) = Inr b))
    \<and> (\<forall>b. fst (walrus_upload net out w (encrypted data)) = Inr b \<longrightarrow>
          fst (submit net out w fid data)
            = Inr (JObj [(lit ''status'', JStr (lit ''stored'')), (lit ''blobId'', b)])
          \<and> submissions (snd (submit net out w fid data))
            = (submissions w)(fid \<mapsto> items @ [JObj [(lit ''blobId'', b)]]))
    \<and> (\<forall>e. fst (walrus_upload net out w (encrypted data)) = Inl e \<longrightarrow>
          fst (submit net out w fid data) = Inl e
          \<and> submissions (snd (submit net out w fid data)) = submissions w)"
proof -
  obtain items where items: "submissions w fid = Some items"
    using assms by (auto simp: keys_agree_def)
  show ?thesis
  proof (cases rule: submit_cases [of fid w net out data])
    case unknown
    then show ?thesis using assms(1) by simp
  next
    case (failed e w')
    have "submissions w' = submissions w"
      using walrus_upload_frame(2) [of net out w "encrypted data"] failed(2) by simp
    then show ?thesis using failed items by auto
  next
    case (missing b w')
    then show ?thesis using items by simp
  next
    case (stored b w' its)
    have "submissions w' = submissions w"
      using walrus_upload_frame(2) [of net out w "encrypted data"] stored(2) by simp
    then show ?thesis using stored items by auto
  qed
qed

text \<open>
  Claim C2 says that a submit on an existing form appends a blob identifier if and only
  if the upload succeeded, and that on a status other than 200, or on a 200 JSON body
  without the keys \<^verbatim>\<open>newlyCreated\<close> and \<^verbatim>\<open>alreadyCertified\<close>, it fails with a store-related
  error and leaves the ledger unchanged. The ledger part holds (\<open>submit_ledger\<close>); the
  error part fails on the code. On the body \<^verbatim>\<open>null\<close> the membership test raises
  \<open>TypeError\<close> before the fallthrough \<^verbatim>\<open>walrus upload missing blobId\<close> is reached, and on a
  status 500 whose \<^verbatim>\<open>print\<close> raises, \<open>UnicodeEncodeError\<close> leaves instead of the
  \<open>HTTPException\<close>. Neither is a store-related error; the ledger is unchanged in both.
\<close>

theorem submit_unclassified:
  "lit ''00ff'' \<in> dom (forms one_form)
   \<and> null_body (sent one_form) (PUT upload_url [0x78])
       = Response \<lparr>status_code = 200, content = [], text = lit ''null'', json = Inr JNull\<rparr>
   \<and> \<not> has_key JNull (lit ''newlyCreated'') \<and> \<not> has_key JNull (lit ''alreadyCertified'')
   \<and> fst (submit null_body quiet one_form (lit ''00ff'') \<lparr>encrypted = lit ''x''\<rparr>) = Inl TypeError
   \<and> \<not> store_related TypeError
   \<and> submissions (snd (submit null_body quiet one_form (lit ''00ff'') \<lparr>encrypted = lit ''x''\<rparr>))
       = submissions one_form
   \<and> fst (submit rejected_500 refusing one_form (lit ''00ff'') \<lparr>encrypted = lit ''x''\<rparr>)
       = Inl UnicodeEncodeError
   \<and> \<not> store_related UnicodeEncodeError
   \<and> submissions (snd (submit rejected_500 refusing one_form (lit ''00ff'')
        \<lparr>encrypted = lit ''x''\<rparr>)) = submissions one_form"
  by (simp add: one_form_facts submit_def walrus_upload_def send_def null_body_def reply_def
      blob_id_of_def store_related_def rejected_500_def refusing_def print_raise_def)

text \<open>
  Claim C4. When the store answers an upload with status 200 and a body holding the
  \<^verbatim>\<open>alreadyCertified\<close> variant (a value at \<^verbatim>\<open>alreadyCertified.blobId\<close>) and no
  \<^verbatim>\<open>newlyCreated\<close> key, the upload returns that blob identifier, exactly as for the body
  \<open>created\<close> with the same identifier, and a submit on an existing form reports success
  with it and appends the record of that identifier to the form's ledger.
\<close>

theorem already_certified_is_success:
  assumes "fid \<in> dom (forms w)" "keys_agree w"
    "encode_utf8 (encrypted data) = Inr bs" "net (sent w) (PUT upload_url bs) = Response resp"
    "status_code resp = 200" "json resp = Inr j"
    "\<not> has_key j (lit ''newlyCreated'')"
    "value_at j [lit ''alreadyCertified'', lit ''blobId''] = Some b"
  shows "fst (walrus_upload net out w (encrypted data)) = Inr b
    \<and> blob_id_of p j = blob_id_of p (created b)
    \<and> fst (submit net out w fid data)
        = Inr (JObj [(lit ''status'', JStr (lit ''stored'')), (lit ''blobId'', b)])
    \<and> (\<exists>items. submissions w fid = Some items
          \<and> submissions (snd (submit net out w fid data))
              = (submissions w)(fid \<mapsto> items @ [JObj [(lit ''blobId'', b)]]))"
proof -
  have u: "walrus_upload net out w (encrypted data)
      = (Inr b, w\<lparr>sent := sent w @ [PUT upload_url bs]\<rparr>)"
    using walrus_upload_200 [of "encrypted data" bs net w resp j out] assms(3-6)
      blob_id_of_certified [OF assms(7,8)] by simp
  obtain items where items: "submissions w fid = Some items"
    using assms(1,2) by (auto simp: keys_agree_def)
  show ?thesis
    using u items assms(1) blob_id_of_certified [OF assms(7,8)]
    by (simp add: submit_def)
qed

theorem already_certified_is_success_witness:
  "lit ''00ff'' \<in> dom (forms one_form) \<and> keys_agree one_form
   \<and> encode_utf8 (lit ''x'') = Inr [0x78]
   \<and> certified_b1 (sent one_form) (PUT upload_url [0x78])
       = Response \<lparr>status_code = 200, content = [], text = [],
           json = Inr (certified (JStr (lit ''b1'')))\<rparr>
   \<and> \<not> has_key (certified (JStr (lit ''b1''))) (lit ''newlyCreated'')
   \<and> value_at (certified (JStr (lit ''b1''))) [lit ''alreadyCertified'', lit ''blobId'']
       = Some (JStr (lit ''b1''))
   \<and> fst (submit certified_b1 quiet one_form (lit ''00ff'') \<lparr>encrypted = lit ''x''\<rparr>)
       = Inr (JObj [(lit ''status'', JStr (lit ''stored'')), (lit ''blobId'', JStr (lit ''b1''))])
   \<and> submissions (snd (submit certified_b1 quiet one_form (lit ''00ff'') \<lparr>encrypted = lit ''x''\<rparr>))
       = (submissions one_form)(lit ''00ff'' \<mapsto> [JObj [(lit ''blobId'', JStr (lit ''b1''))]])"
proof -
  have n: "certified_b1 (sent one_form) (PUT upload_url [0x78])
       = Response \<lparr>status_code = 200, content = [], text = [],
           json = Inr (certified (JStr (lit ''b1'')))\<rparr>"
    by (simp add: certified_b1_def reply_def)
  have k: "\<not> has_key (certified (JStr (lit ''b1''))) (lit ''newlyCreated'')"
    "value_at (certified (JStr (lit ''b1''))) [lit ''alreadyCertified'', lit ''blobId'']
       = Some (JStr (lit ''b1''))"
    by (simp_all add: certified_def)
  show ?thesis
    using n k one_form_facts
      already_certified_is_success [of "lit ''00ff''" one_form "\<lparr>encrypted = lit ''x''\<rparr>"
        "[0x78]" certified_b1
        "\<lparr>status_code = 200, content = [], text = [],
           json = Inr (certified (JStr (lit ''b1'')))\<rparr>"
        "certified (JStr (lit ''b1''))" "JStr (lit ''b1'')" quiet]
    by simp
qed

lemma walrus_fetch_200:
  assumes "net (sent w) (GET fetch_url blob_id) = Response resp" "status_code resp = 200"
  shows "walrus_fetch net out w blob_id
    = (decode_utf8 (content resp), w\<lparr>sent := sent w @ [GET fetch_url blob_id]\<rparr>)"
  using assms by (simp add: walrus_fetch_def send_def)

text \<open>
  A fetch answered with status 200 returns a string exactly when the body is the UTF-8
  encoding of that string; when the body is the encoding of no string it ends in
  \<open>UnicodeDecodeError\<close>.
\<close>

lemma walrus_fetch_decodes:
  assumes "net (sent w) (GET fetch_url blob_id) = Response resp" "status_code resp = 200"
  shows "fst (walrus_fetch net out w blob_id) = decode_utf8 (content resp)
    \<and> (\<forall>s. fst (walrus_fetch net out w blob_id) = Inr s
              \<longleftrightarrow> encode_utf8 s = Inr (content resp))
    \<and> ((\<forall>s. encode_utf8 s \<noteq> Inr (content resp)) \<longrightarrow>
          fst (walrus_fetch net out w blob_id) = Inl UnicodeDecodeError)"
proof -
  have f: "fst (walrus_fetch net out w blob_id) = decode_utf8 (content resp)"
    using walrus_fetch_200 [of net w blob_id resp out] assms by simp
  have "decode_utf8 (content resp) = Inl UnicodeDecodeError"
    if "\<forall>s. encode_utf8 s \<noteq> Inr (content resp)"
    using that encode_decode [of "content resp"]
    by (cases "dec (map unat (content resp))") (auto simp add: decode_utf8_def)
  then show ?thesis using f decode_utf8_iff by auto
qed

text \<open>
  Claim C3 says that a fetch answered with status 200 returns the body decoded as UTF-8
  and, when the body is not valid UTF-8, fails with \<open>StoreProtocolError\<close> rather than
  with an unclassified exception. The decoding holds (\<open>walrus_fetch_decodes\<close>); the
  classification fails on the code. On the one-byte body \<^verbatim>\<open>FF\<close> with status 200 the
  unguarded \<^verbatim>\<open>decode\<close> raises \<open>UnicodeDecodeError\<close>, which is no \<open>StoreProtocolError\<close> and
  has no kind at all, whereas \<open>walrus_upload\<close> turns the failure of its own body parse
  into an \<open>HTTPException 500\<close>.
\<close>

theorem walrus_fetch_unclassified:
  "invalid_utf8 (sent start) (GET fetch_url (JStr (lit ''b1'')))
     = Response \<lparr>status_code = 200, content = [0xFF], text = [0xFFFD], json = Inl ValueError\<rparr>
   \<and> fst (walrus_fetch invalid_utf8 quiet start (JStr (lit ''b1''))) = Inl UnicodeDecodeError
   \<and> kind_of UnicodeDecodeError \<noteq> Some StoreProtocolError
   \<and> kind_of UnicodeDecodeError = None
   \<and> fst (walrus_upload invalid_utf8 quiet start (lit ''x''))
       = Inl (HTTPException 500 (lit ''walrus upload bad response''))"
  by (simp add: walrus_fetch_def walrus_upload_def send_def invalid_utf8_def reply_def
      decode_utf8_def quiet_def print_raise_def)

text \<open>The byte \<^verbatim>\<open>FF\<close> is the UTF-8 encoding of no string.\<close>

lemma ff_encodes_nothing: "encode_utf8 s \<noteq> Inr [0xFF]"
proof
  assume "encode_utf8 s = Inr [0xFF]"
  then have "decode_utf8 [0xFF] = Inr s" by (rule decode_encode)
  then show False by (simp add: decode_utf8_def)
qed

section \<open>Registry and ledger have the same keys\<close>

lemma keys_agree_start: "keys_agree start"
  by (simp add: keys_agree_def start_def)

lemma keys_agree_create_form: "keys_agree w \<Longrightarrow> keys_agree (snd (create_form token w data))"
  by (simp add: keys_agree_def create_form_def)

lemma keys_agree_submit: "keys_agree w \<Longrightarrow> keys_agree (snd (submit net out w fid data))"
proof (cases rule: submit_cases [of fid w net out data])
  case unknown
  assume "keys_agree w"
  then show ?thesis using unknown by simp
next
  case (failed e w')
  assume "keys_agree w"
  then show ?thesis
    using failed walrus_upload_frame [of net out w "encrypted data"] by (simp add: keys_agree_def)
next
  case (missing b w')
  assume "keys_agree w"
  then show ?thesis
    using missing walrus_upload_frame [of net out w "encrypted data"] by (simp add: keys_agree_def)
next
  case (stored b w' items)
  assume "keys_agree w"
  then show ?thesis
    using stored walrus_upload_frame [of net out w "encrypted data"]
    by (auto simp add: keys_agree_def)
qed

lemma keys_agree_list_submissions:
  "keys_agree w \<Longrightarrow> keys_agree (snd (list_submissions net out w fid))"
  by (simp add: keys_agree_def list_submissions_frame)

lemma keys_agree_exec: "keys_agree w \<Longrightarrow> keys_agree (exec net out w c)"
  by (cases c)
    (simp_all add: keys_agree_create_form keys_agree_submit keys_agree_list_submissions)

lemma keys_agree_foldl: "keys_agree w \<Longrightarrow> keys_agree (foldl (exec net out) w cs)"
  by (induction cs arbitrary: w) (simp_all add: keys_agree_exec)

text \<open>
  Claim C9. The registry and the ledger have the same keys at the start, and every
  operation (\<open>create_form\<close>, \<open>submit\<close>, \<open>list_submissions\<close>, \<open>get_form\<close>) keeps it so;
  hence it holds after every sequence of operations, and the existence checks against
  \<^verbatim>\<open>forms\<close> and against \<^verbatim>\<open>submissions\<close> agree on every form identifier.
\<close>

theorem keys_agree_invariant:
  "keys_agree start
   \<and> (keys_agree w \<longrightarrow>
        keys_agree (snd (create_form token w req))
        \<and> keys_agree (snd (submit net out w fid data))
        \<and> keys_agree (snd (list_submissions net out w fid))
        \<and> keys_agree (exec net out w c)
        \<and> (fid \<in> dom (forms w) \<longleftrightarrow> fid \<in> dom (submissions w)))
   \<and> keys_agree (foldl (exec net out) start cs)"
  using keys_agree_start keys_agree_create_form keys_agree_submit keys_agree_list_submissions
    keys_agree_exec keys_agree_foldl [OF keys_agree_start]
  by (auto simp: keys_agree_def)

theorem keys_agree_invariant_witness:
  "keys_agree one_form
   \<and> keys_agree (snd (submit created_b1 quiet one_form (lit ''00ff'') \<lparr>encrypted = lit ''x''\<rparr>))
   \<and> keys_agree (foldl (exec created_b1 quiet) start
        [CreateForm (lit ''00ff'') pk1_request, Submit (lit ''00ff'') \<lparr>encrypted = lit ''x''\<rparr>,
         ListSubmissions (lit ''00ff''), GetForm (lit ''00ff'')])"
  using one_form_facts(2)
    keys_agree_invariant [of one_form "lit ''00ff''" pk1_request created_b1 quiet
        "lit ''00ff''" "\<lparr>encrypted = lit ''x''\<rparr>" "GetForm (lit ''00ff'')"
        "[CreateForm (lit ''00ff'') pk1_request, Submit (lit ''00ff'') \<lparr>encrypted = lit ''x''\<rparr>,
         ListSubmissions (lit ''00ff''), GetForm (lit ''00ff'')]"]
  by blast

section \<open>Round trip through the store\<close>

lemma stored_append: "stored (h @ h') = stored h @ stored h'"
  by (induction h rule: stored.induct) simp_all

lemma find_append:
  "find P (xs @ ys) = (case find P xs of Some x \<Rightarrow> Some x | None \<Rightarrow> find P ys)"
  by (induction xs) simp_all

lemma find_inj_ident:
  assumes "inj ident" "bs \<in> set bss"
  shows "find (\<lambda>x. JStr (ident x) = JStr (ident bs)) bss = Some bs"
  using assms(2)
proof (induction bss)
  case Nil
  then show ?case by simp
next
  case (Cons a bss)
  then show ?case using assms(1) by (auto simp: inj_eq)
qed

lemma walrus_upload_blob_store:
  "walrus_upload (blob_store ident) out w s =
     (case encode_utf8 s of
        Inl e \<Rightarrow> (Inl e, w)
      | Inr bs \<Rightarrow> (Inr (JStr (ident bs)), w\<lparr>sent := sent w @ [PUT upload_url bs]\<rparr>))"
  by (simp add: walrus_upload_def send_def split: sum.splits)

lemma walrus_fetch_blob_store:
  "walrus_fetch (blob_store ident) out w v =
     (case find (\<lambda>bs. JStr (ident bs) = v) (stored (sent w)) of
        Some bs \<Rightarrow> decode_utf8 bs
      | None \<Rightarrow>
          Inl (print_raise (out (sent w @ [GET fetch_url v]))
                 [PStr (lit ''Walrus fetch error:''), PInt 404, PStr []]
                 (HTTPException 500 (lit ''walrus fetch failed''))),
      w\<lparr>sent := sent w @ [GET fetch_url v]\<rparr>)"
  by (simp add: walrus_fetch_def send_def split: option.splits)

lemma fetch_items_append:
  "fetch_items net out w (xs @ ys) acc =
     (case fetch_items net out w xs acc of
        (Inl e, w') \<Rightarrow> (Inl e, w')
      | (Inr r, w') \<Rightarrow> fetch_items net out w' ys r)"
  by (induction xs arbitrary: w acc) (auto split: sum.splits prod.splits)

lemma walrus_fetch_sent:
  "stored (sent (snd (walrus_fetch net out w v))) = stored (sent w)"
  by (auto simp: walrus_fetch_def send_def stored_append split: http_result.splits)

lemma fetch_items_sent:
  "stored (sent (snd (fetch_items net out w items acc))) = stored (sent w)"
proof (induction items arbitrary: w acc)
  case Nil
  then show ?case by simp
next
  case (Cons item items)
  show ?case
  proof (cases "getitem item (lit ''blobId'')")
    case (Inl e)
    then show ?thesis by simp
  next
    case (Inr b)
    obtain r w' where f: "walrus_fetch net out w b = (r, w')" by (cases "walrus_fetch net out w b")
    have w': "stored (sent w') = stored (sent w)"
      using walrus_fetch_sent [of net out w b] f by simp
    show ?thesis using Inr f w' Cons.IH [of w'] by (cases r) simp_all
  qed
qed

lemma fetch_items_stable:
  assumes "fst (fetch_items (blob_store ident) out w items acc) = Inr res"
    "prefix (stored (sent w)) (stored (sent w'))"
  shows "fst (fetch_items (blob_store ident) out w' items acc) = Inr res"
  using assms
proof (induction items arbitrary: w w' acc)
  case Nil
  then show ?case by simp
next
  case (Cons item items)
  obtain b where b: "getitem item (lit ''blobId'') = Inr b"
    using Cons.prems(1) by (cases "getitem item (lit ''blobId'')") simp_all
  obtain extra where extra: "stored (sent w') = stored (sent w) @ extra"
    using Cons.prems(2) by (auto simp: prefix_def)
  obtain bs where bs: "find (\<lambda>bs. JStr (ident bs) = b) (stored (sent w)) = Some bs"
    using Cons.prems(1) b
    by (cases "find (\<lambda>bs. JStr (ident bs) = b) (stored (sent w))")
      (simp_all add: walrus_fetch_blob_store)
  have bs': "find (\<lambda>bs. JStr (ident bs) = b) (stored (sent w')) = Some bs"
    unfolding extra find_append using bs by simp
  obtain p where p: "decode_utf8 bs = Inr p"
    using Cons.prems(1) b bs
    by (cases "decode_utf8 bs") (simp_all add: walrus_fetch_blob_store)
  let ?w1 = "w\<lparr>sent := sent w @ [GET fetch_url b]\<rparr>"
  let ?w1' = "w'\<lparr>sent := sent w' @ [GET fetch_url b]\<rparr>"
  let ?acc = "acc @ [JObj [(lit ''blobId'', b), (lit ''encrypted'', JStr p)]]"
  have 1: "fst (fetch_items (blob_store ident) out ?w1 items ?acc) = Inr res"
    using Cons.prems(1) b bs p by (simp add: walrus_fetch_blob_store)
  have 2: "prefix (stored (sent ?w1)) (stored (sent ?w1'))"
    using Cons.prems(2) by (simp add: stored_append)
  show ?case
    using Cons.IH [OF 1 2] b bs' p by (simp add: walrus_fetch_blob_store)
qed

lemma fetch_new_item:
  assumes "inj ident" "bs \<in> set (stored (sent w))" "decode_utf8 bs = Inr p"
  shows "fst (fetch_items (blob_store ident) out w [JObj [(lit ''blobId'', JStr (ident bs))]] acc)
    = Inr (acc @ [JObj [(lit ''blobId'', JStr (ident bs)), (lit ''encrypted'', JStr p)]])"
  using find_inj_ident [OF assms(1,2)] assms(3) by (simp add: walrus_fetch_blob_store)

lemma submit_blob_store:
  assumes "submit (blob_store ident) out w fid data = (Inr r, w')"
  obtains items bs where "submissions w fid = Some items"
    "encode_utf8 (encrypted data) = Inr bs"
    "r = JObj [(lit ''status'', JStr (lit ''stored'')), (lit ''blobId'', JStr (ident bs))]"
    "submissions w' fid = Some (items @ [JObj [(lit ''blobId'', JStr (ident bs))]])"
    "sent w' = sent w @ [PUT upload_url bs]"
proof (cases rule: submit_cases [of fid w "blob_store ident" out data])
  case (stored b u items)
  obtain bs where bs: "encode_utf8 (encrypted data) = Inr bs"
    using stored(2) by (cases "encode_utf8 (encrypted data)") (simp_all add: walrus_upload_blob_store)
  have "b = JStr (ident bs)" "u = w\<lparr>sent := sent w @ [PUT upload_url bs]\<rparr>"
    using stored(2) bs by (simp_all add: walrus_upload_blob_store)
  then show ?thesis using that [of items bs] stored(3,4) bs assms by auto
qed (use assms in auto)

lemma list_extended:
  assumes "inj ident" "fst (fetch_items (blob_store ident) out w items []) = Inr before"
    "prefix (stored (sent w)) (stored (sent w'))"
    "bs \<in> set (stored (sent w'))" "decode_utf8 bs = Inr p"
  shows "fst (fetch_items (blob_store ident) out w'
            (items @ [JObj [(lit ''blobId'', JStr (ident bs))]]) [])
    = Inr (before @ [JObj [(lit ''blobId'', JStr (ident bs)), (lit ''encrypted'', JStr p)]])"
proof -
  obtain r u where u: "fetch_items (blob_store ident) out w' items [] = (r, u)"
    by (cases "fetch_items (blob_store ident) out w' items []")
  have r: "r = Inr before" using fetch_items_stable [OF assms(2,3)] u by simp
  have "stored (sent u) = stored (sent w')"
    using fetch_items_sent [of "blob_store ident" out w' items "[]"] u by simp
  then have "bs \<in> set (stored (sent u))" using assms(4) by simp
  then show ?thesis
    unfolding fetch_items_append u r using fetch_new_item [OF assms(1) _ assms(5)] by simp
qed

text \<open>
  Claim C5. Against a store that returns on fetch the bytes stored at upload
  (\<open>blob_store\<close>, for any injective naming of blobs by content): if listing a form
  returns the entries \<open>before\<close>, then after a successful submit of a first payload the
  listing returns \<open>before\<close> followed by one entry whose \<^verbatim>\<open>encrypted\<close> field is that
  payload, code point for code point, and after a second successful submit it returns
  \<open>before\<close> followed by the entries of the first and of the second payload, in that
  order. On a form without earlier submissions (\<open>before = []\<close>) these are exactly one
  entry and exactly the two entries.
\<close>

theorem submissions_round_trip:
  assumes "inj ident"
    "fst (list_submissions (blob_store ident) out w fid) = Inr before"
    "submit (blob_store ident) out w fid data1 = (Inr r1, w1)"
    "submit (blob_store ident) out w1 fid data2 = (Inr r2, w2)"
  shows "\<exists>b1 b2.
      r1 = JObj [(lit ''status'', JStr (lit ''stored'')), (lit ''blobId'', b1)]
    \<and> r2 = JObj [(lit ''status'', JStr (lit ''stored'')), (lit ''blobId'', b2)]
    \<and> fst (list_submissions (blob_store ident) out w1 fid)
        = Inr (before @ [JObj [(lit ''blobId'', b1), (lit ''encrypted'', JStr (encrypted data1))]])
    \<and> fst (list_submissions (blob_store ident) out w2 fid)
        = Inr (before @ [JObj [(lit ''blobId'', b1), (lit ''encrypted'', JStr (encrypted data1))],
                         JObj [(lit ''blobId'', b2), (lit ''encrypted'', JStr (encrypted data2))]])"
proof -
  obtain items bs1 where 1: "submissions w fid = Some items"
    "encode_utf8 (encrypted data1) = Inr bs1"
    "r1 = JObj [(lit ''status'', JStr (lit ''stored'')), (lit ''blobId'', JStr (ident bs1))]"
    "submissions w1 fid = Some (items @ [JObj [(lit ''blobId'', JStr (ident bs1))]])"
    "sent w1 = sent w @ [PUT upload_url bs1]"
    using submit_blob_store [OF assms(3)] by blast
  obtain items1 bs2 where 2: "submissions w1 fid = Some items1"
    "encode_utf8 (encrypted data2) = Inr bs2"
    "r2 = JObj [(lit ''status'', JStr (lit ''stored'')), (lit ''blobId'', JStr (ident bs2))]"
    "submissions w2 fid = Some (items1 @ [JObj [(lit ''blobId'', JStr (ident bs2))]])"
    "sent w2 = sent w1 @ [PUT upload_url bs2]"
    using submit_blob_store [OF assms(4)] by blast
  have items1: "items1 = items @ [JObj [(lit ''blobId'', JStr (ident bs1))]]"
    using 1(4) 2(1) by simp
  have before: "fst (fetch_items (blob_store ident) out w items []) = Inr before"
    using assms(2) 1(1) by (simp add: list_submissions_def)
  have l1: "fst (fetch_items (blob_store ident) out w1
                (items @ [JObj [(lit ''blobId'', JStr (ident bs1))]]) [])
      = Inr (before @ [JObj [(lit ''blobId'', JStr (ident bs1)),
                             (lit ''encrypted'', JStr (encrypted data1))]])"
    by (rule list_extended [OF assms(1) before _ _ decode_encode [OF 1(2)]])
      (simp_all add: 1(5) stored_append)
  have l2: "fst (fetch_items (blob_store ident) out w2
                (items1 @ [JObj [(lit ''blobId'', JStr (ident bs2))]]) [])
      = Inr ((before @ [JObj [(lit ''blobId'', JStr (ident bs1)),
                             (lit ''encrypted'', JStr (encrypted data1))]])
              @ [JObj [(lit ''blobId'', JStr (ident bs2)),
                       (lit ''encrypted'', JStr (encrypted data2))]])"
    unfolding items1
    by (rule list_extended [OF assms(1) l1 _ _ decode_encode [OF 2(2)]])
      (simp_all add: 2(5) stored_append)
  show ?thesis
    using l1 l2 1(3,4) 2(3,4) items1 by (simp add: list_submissions_def)
qed

lemma inj_content_name: "inj content_name"
  unfolding content_name_def by (rule inj_mapI) (simp add: inj_on_def word_unat_eq_iff)

lemma encode_euro: "encode_utf8 [0x20AC] = Inr [0xE2, 0x82, 0xAC]"
  by (simp add: encode_utf8_def enc_char_def)

lemma submit_x:
  "submit (blob_store content_name) quiet one_form (lit ''00ff'') \<lparr>encrypted = lit ''x''\<rparr>
   = (Inr (JObj [(lit ''status'', JStr (lit ''stored'')), (lit ''blobId'', JStr [0x78])]), after_x)"
  using one_form_facts(1,3,4)
  by (simp add: submit_def walrus_upload_blob_store after_x_def content_name_def)

lemma submit_euro:
  "submit (blob_store content_name) quiet after_x (lit ''00ff'') \<lparr>encrypted = [0x20AC]\<rparr>
   = (Inr (JObj [(lit ''status'', JStr (lit ''stored'')),
                 (lit ''blobId'', JStr [0xE2, 0x82, 0xAC])]), after_euro)"
  using one_form_facts(1,3,4)
  by (simp add: submit_def walrus_upload_blob_store after_x_def after_euro_def content_name_def
      encode_euro)

theorem submissions_round_trip_witness:
  "inj content_name
   \<and> fst (list_submissions (blob_store content_name) quiet one_form (lit ''00ff'')) = Inr []
   \<and> submit (blob_store content_name) quiet one_form (lit ''00ff'') \<lparr>encrypted = lit ''x''\<rparr>
       = (Inr (JObj [(lit ''status'', JStr (lit ''stored'')), (lit ''blobId'', JStr [0x78])]),
          after_x)
   \<and> submit (blob_store content_name) quiet after_x (lit ''00ff'') \<lparr>encrypted = [0x20AC]\<rparr>
       = (Inr (JObj [(lit ''status'', JStr (lit ''stored'')),
                     (lit ''blobId'', JStr [0xE2, 0x82, 0xAC])]), after_euro)
   \<and> fst (list_submissions (blob_store content_name) quiet after_x (lit ''00ff''))
       = Inr [JObj [(lit ''blobId'', JStr [0x78]), (lit ''encrypted'', JStr (lit ''x''))]]
   \<and> fst (list_submissions (blob_store content_name) quiet after_euro (lit ''00ff''))
       = Inr [JObj [(lit ''blobId'', JStr [0x78]), (lit ''encrypted'', JStr (lit ''x''))],
              JObj [(lit ''blobId'', JStr [0xE2, 0x82, 0xAC]), (lit ''encrypted'', JStr [0x20AC])]]"
proof -
  have l: "fst (list_submissions (blob_store content_name) quiet one_form (lit ''00ff'')) = Inr []"
    using one_form_facts(3) by (simp add: list_submissions_def)
  show ?thesis
    using inj_content_name l submit_x submit_euro
      submissions_round_trip [OF inj_content_name l submit_x submit_euro]
    by simp
qed

end
